theory Spec2Isabelle
  imports Main
begin

section \<open>StakingCard: the values the component reads\<close>

text \<open>
  The component \<open>StakingCard\<close> (apps/wallet/src/ui/app/staking/stake/StakingCard.tsx) is a
  React function component. One render reads a number of hooks and imported helpers and
  closes the submit handler over them. The model collects what one render reads in a record
  and writes every \<open>const\<close> of the component as a function of that record.

  A thrown JavaScript value is represented by what the handler reads of it, the optional
  \<open>message\<close> (\<open>(e as Error)?.message\<close>, line 234).
\<close>

type_synonym thrown = "string option"

text \<open>
  Modelled from the spec: the type of a stake object is declared in the SDK package
  (\<open>@mysten/sui.js\<close>), not in the component. The spec's data model gives a StakePosition
  the status \<open>Pending\<close> or \<open>Active\<close>; the component reads the fields \<open>status\<close>,
  \<open>stakedSuiId\<close> and \<open>estimatedReward\<close> (the last one for display only).
\<close>

datatype stake_status = Pending | Active

record stake_object =
  stakedSuiId :: string
  status :: stake_status

text \<open>The \<open>options\<close> object passed to \<open>signAndExecuteTransaction\<close> (lines 141-145, 169-173).\<close>

record exec_options =
  showInput :: bool
  showEffects :: bool
  showEvents :: bool

text \<open>
  \<open>useSigner()\<close> gives \<open>null\<close> or an asynchronous factory. Awaiting the factory either
  rejects or gives an initialised signer, whose \<open>signAndExecuteTransaction\<close> either
  rejects or resolves with a response.
\<close>

type_synonym ('tx, 'r) initialized_signer = "'tx \<Rightarrow> exec_options \<Rightarrow> thrown + 'r"

type_synonym ('tx, 'r) signer_factory = "thrown + ('tx, 'r) initialized_signer"

text \<open>
  The observable actions of the component, in the order in which they are issued. The call
  of \<open>signAndExecuteTransaction\<close> (the broadcast) is recorded together with the way its
  promise settles.
\<close>

datatype ('tx, 'r) effect =
    TrackEvent string "(string \<times> string) list"
  | SentryStartTransaction string
  | SentryFinish
  | CreateStakeTransaction int string
  | CreateUnstakeTransaction string
  | SignerCall
  | SignAndExecuteTransaction 'tx exec_options "thrown + 'r"
  | InvalidateQueries "string list"
  | ResetForm
  | Navigate string "(string \<times> string) list"
  | ToastError string "string option"

text \<open>
  What one render reads. The helpers \<open>parseAmount\<close>, \<open>createValidationSchema\<close>,
  \<open>createStakeTransaction\<close>, \<open>createUnstakeTransaction\<close>, \<open>getDelegationDataByStakeId\<close>,
  \<open>Coin.getCoinSymbol\<close> and the SDK's \<open>getTransactionDigest\<close> are imported by the
  component and defined elsewhere; they are parameters here. The two transaction builders
  may throw; \<open>parseAmount\<close>, \<open>getTransactionDigest\<close>, the telemetry calls, \<open>resetForm\<close> and
  \<open>navigate\<close> are taken to return. \<open>SUI_TYPE_ARG\<close> and the search parameters are optional
  strings, so that the component's tests against \<open>null\<close> and its truthiness tests are
  both written as in the source. Of the system state only its presence is read by the
  logic (its epoch is displayed).
\<close>

record ('tx, 'r, 'd) hooks =
  SUI_TYPE_ARG :: "string option"
  suiBalance :: "int option"
  searchParams :: "string \<rightharpoonup> string"
  allDelegation :: "'d option"
  system :: "nat option"
  validatorsIsloading :: bool
  coinDecimals :: nat
  signer :: "('tx, 'r) signer_factory option"
  parseAmount :: "string \<Rightarrow> nat \<Rightarrow> int"
  createValidationSchema :: "int \<Rightarrow> string \<Rightarrow> nat \<Rightarrow> bool \<Rightarrow> int \<Rightarrow> string \<Rightarrow> bool"
  createStakeTransaction :: "int \<Rightarrow> string \<Rightarrow> thrown + 'tx"
  createUnstakeTransaction :: "string \<Rightarrow> thrown + 'tx"
  getTransactionDigest :: "'r \<Rightarrow> string"
  getDelegationDataByStakeId :: "'d \<Rightarrow> string \<Rightarrow> stake_object option"
  getCoinSymbol :: "string \<Rightarrow> string"

text \<open>JavaScript truthiness of a value of type \<open>string | null\<close>.\<close>

definition truthy :: "string option \<Rightarrow> bool" where
  "truthy s = (case s of None \<Rightarrow> False | Some v \<Rightarrow> v \<noteq> [])"

section \<open>The constants of one render (lines 55-112)\<close>

definition coinType :: "('tx, 'r, 'd) hooks \<Rightarrow> string option" where
  "coinType h = SUI_TYPE_ARG h"

text \<open>\<open>BigInt(suiBalance?.totalBalance || 0)\<close>.\<close>

definition coinBalance :: "('tx, 'r, 'd) hooks \<Rightarrow> int" where
  "coinBalance h = (case suiBalance h of None \<Rightarrow> 0 | Some b \<Rightarrow> b)"

definition validatorAddress :: "('tx, 'r, 'd) hooks \<Rightarrow> string option" where
  "validatorAddress h = searchParams h ''address''"

definition stakeSuiIdParams :: "('tx, 'r, 'd) hooks \<Rightarrow> string option" where
  "stakeSuiIdParams h = searchParams h ''staked''"

definition unstake :: "('tx, 'r, 'd) hooks \<Rightarrow> bool" where
  "unstake h = (searchParams h ''unstake'' = Some ''true'')"

text \<open>Lines 76-80: no delegation data without the delegations or without a stake id.\<close>

definition stakeData :: "('tx, 'r, 'd) hooks \<Rightarrow> stake_object option" where
  "stakeData h =
     (case allDelegation h of
        None \<Rightarrow> None
      | Some ds \<Rightarrow>
          (case stakeSuiIdParams h of
             None \<Rightarrow> None
           | Some sid \<Rightarrow> if sid = [] then None else getDelegationDataByStakeId h ds sid))"

text \<open>Lines 82-85: \<open>(coinType && Coin.getCoinSymbol(coinType)) || ''\<close>.\<close>

definition coinSymbol :: "('tx, 'r, 'd) hooks \<Rightarrow> string" where
  "coinSymbol h =
     (case coinType h of None \<Rightarrow> [] | Some ct \<Rightarrow> if ct = [] then [] else getCoinSymbol h ct)"

text \<open>Lines 89-91: the minimum stake is the amount string \<open>'1'\<close>, parsed.\<close>

definition minimumStake :: "('tx, 'r, 'd) hooks \<Rightarrow> int" where
  "minimumStake h = parseAmount h ''1'' (coinDecimals h)"

text \<open>Lines 93-103; the schema is represented by the validity of an amount string.\<close>

definition validationSchema :: "('tx, 'r, 'd) hooks \<Rightarrow> string \<Rightarrow> bool" where
  "validationSchema h =
     createValidationSchema h (coinBalance h) (coinSymbol h) (coinDecimals h) (unstake h)
       (minimumStake h)"

text \<open>Lines 106-109.\<close>

definition delegationId :: "('tx, 'r, 'd) hooks \<Rightarrow> string option" where
  "delegationId h =
     (case stakeData h of
        None \<Rightarrow> None
      | Some sd \<Rightarrow> if status sd = Pending then None else Some (stakedSuiId sd))"

section \<open>The two mutations (lines 114-179)\<close>

definition showAll :: exec_options where
  "showAll = \<lparr>showInput = True, showEffects = True, showEvents = True\<rparr>"

text \<open>
  The body of the \<open>try\<close> blocks of both mutations after the transaction builder was called
  (lines 138-146 and 166-174): await the signer factory, then sign and execute. A builder
  that threw leaves the block at once.
\<close>

definition signAndExecute ::
  "('tx, 'r) signer_factory \<Rightarrow> thrown + 'tx \<Rightarrow> ('tx, 'r) effect list \<times> (thrown + 'r)" where
  "signAndExecute sg built =
     (case built of
        Inl e \<Rightarrow> ([], Inl e)
      | Inr transaction \<Rightarrow>
          (case sg of
             Inl e \<Rightarrow> ([SignerCall], Inl e)
           | Inr initializedSigner \<Rightarrow>
               ([SignerCall,
                 SignAndExecuteTransaction transaction showAll
                   (initializedSigner transaction showAll)],
                initializedSigner transaction showAll)))"

text \<open>
  \<open>stakeToken.mutationFn\<close>: the effects it issues and how its promise settles. The
  \<open>finally\<close> block finishes the Sentry transaction on both exits of the \<open>try\<close>. Past
  the test of line 124 the signer is not \<open>null\<close>, so the \<open>None\<close> case below it is never
  taken.
\<close>

definition stakeToken ::
  "('tx, 'r, 'd) hooks \<Rightarrow> string \<Rightarrow> int \<Rightarrow> string \<Rightarrow> ('tx, 'r) effect list \<times> (thrown + 'r)" where
  "stakeToken h tokenTypeArg amount validatorAddress' =
     (if validatorAddress' = [] \<or> amount = 0 \<or> tokenTypeArg = [] \<or> signer h = None
      then ([], Inl (Some ''Failed, missing required field''))
      else
        (case signer h of
           None \<Rightarrow> ([], Inl (Some ''Failed, missing required field''))
         | Some sg \<Rightarrow>
             (case signAndExecute sg (createStakeTransaction h amount validatorAddress') of
                (effs, res) \<Rightarrow>
                  ([TrackEvent ''Stake'' [(''validator'', validatorAddress')],
                    SentryStartTransaction ''stake'',
                    CreateStakeTransaction amount validatorAddress']
                   @ effs @ [SentryFinish], res))))"

text \<open>\<open>unStakeToken.mutationFn\<close>; its error message ends with a full stop.\<close>

definition unStakeToken ::
  "('tx, 'r, 'd) hooks \<Rightarrow> string \<Rightarrow> ('tx, 'r) effect list \<times> (thrown + 'r)" where
  "unStakeToken h stakedSuiId' =
     (if stakedSuiId' = [] \<or> signer h = None
      then ([], Inl (Some ''Failed, missing required field.''))
      else
        (case signer h of
           None \<Rightarrow> ([], Inl (Some ''Failed, missing required field.''))
         | Some sg \<Rightarrow>
             (case signAndExecute sg (createUnstakeTransaction h stakedSuiId') of
                (effs, res) \<Rightarrow>
                  ([TrackEvent ''Unstake'' [],
                    SentryStartTransaction ''stake'',
                    CreateUnstakeTransaction stakedSuiId']
                   @ effs @ [SentryFinish], res))))"

section \<open>The submit handler (lines 181-259)\<close>

text \<open>
  Lines 216-232, reached when the awaited mutation resolved: the two invalidations are
  issued and not awaited, the form is reset, the receipt view is navigated to.
\<close>

definition on_resolved :: "('tx, 'r, 'd) hooks \<Rightarrow> 'r \<Rightarrow> ('tx, 'r) effect list" where
  "on_resolved h response =
     [InvalidateQueries [''system'', ''state''],
      InvalidateQueries [''validator''],
      ResetForm,
      Navigate ''/receipt''
        [(''txdigest'', getTransactionDigest h response), (''from'', ''stake'')]]"

text \<open>
  Lines 233-245, the \<open>catch\<close> block: a toast titled after the mode, with the message of
  the thrown value when it is a non-empty string.
\<close>

definition on_rejected :: "('tx, 'r, 'd) hooks \<Rightarrow> thrown \<Rightarrow> ('tx, 'r) effect list" where
  "on_rejected h e =
     [ToastError ((if unstake h then ''Unstake'' else ''Stake'') @ '' failed'')
        (case e of None \<Rightarrow> None | Some msg \<Rightarrow> if msg = [] then None else Some msg)]"

definition after_mutation ::
  "('tx, 'r, 'd) hooks \<Rightarrow> ('tx, 'r) effect list \<times> (thrown + 'r) \<Rightarrow> ('tx, 'r) effect list" where
  "after_mutation h m =
     (case m of
        (effs, Inr response) \<Rightarrow> effs @ on_resolved h response
      | (effs, Inl e) \<Rightarrow> effs @ on_rejected h e)"

text \<open>
  \<open>onHandleSubmit\<close>: the effects of one invocation with the form value \<open>amount\<close>. The
  two early \<open>return\<close>s (lines 186-188 and 195-201) issue nothing.
\<close>

definition onHandleSubmit :: "('tx, 'r, 'd) hooks \<Rightarrow> string \<Rightarrow> ('tx, 'r) effect list" where
  "onHandleSubmit h amount =
     (case coinType h of
        None \<Rightarrow> []
      | Some tokenTypeArg \<Rightarrow>
          (case validatorAddress h of
             None \<Rightarrow> []
           | Some address \<Rightarrow>
               (let bigIntAmount = parseAmount h amount (coinDecimals h) in
                if unstake h then
                  (case stakeData h of
                     None \<Rightarrow> []
                   | Some sd \<Rightarrow>
                       (case stakeSuiIdParams h of
                          None \<Rightarrow> []
                        | Some sid \<Rightarrow>
                            if sid = [] \<or> status sd = Pending then []
                            else after_mutation h (unStakeToken h sid)))
                else after_mutation h (stakeToken h tokenTypeArg bigIntAmount address))))"

section \<open>The rendered view and the form (lines 261-385)\<close>

text \<open>
  The form is Formik's: it holds the field \<open>amount\<close> (initially \<open>''\<close>, line 48), derives
  \<open>isValid\<close> from the validation schema and the current value, and keeps the flag
  \<open>isSubmitting\<close>, which it sets when a submission starts and clears when the promise of
  the submit handler has resolved. The model keeps, besides, the effects issued so far.
\<close>

record ('tx, 'r) form =
  values_amount :: string
  isSubmitting :: bool
  issued :: "('tx, 'r) effect list"

definition initialValues :: string where
  "initialValues = []"

definition isValid :: "('tx, 'r, 'd) hooks \<Rightarrow> ('tx, 'r, 'z) form_scheme \<Rightarrow> bool" where
  "isValid h f = validationSchema h (values_amount f)"

text \<open>The \<open>disabled\<close> attribute of the submit button (lines 365-369).\<close>

definition submit_disabled :: "('tx, 'r, 'd) hooks \<Rightarrow> ('tx, 'r, 'z) form_scheme \<Rightarrow> bool" where
  "submit_disabled h f =
     (\<not> isValid h f \<or> isSubmitting f \<or> (unstake h \<and> \<not> truthy (delegationId h)))"

text \<open>
  What the component returns: the redirect of lines 261-263, or the form, of which the
  model keeps whether its submit button is disabled. (The \<open>Loading\<close> wrapper, which shows
  the form once the three queries have loaded, is left out: the model offers the button
  in more states than the component does.)
\<close>

datatype view = NavigateTo string | StakingForm bool

definition StakingCard :: "('tx, 'r, 'd) hooks \<Rightarrow> ('tx, 'r, 'z) form_scheme \<Rightarrow> view" where
  "StakingCard h f =
     (if \<not> truthy (coinType h) \<or> \<not> truthy (validatorAddress h)
         \<or> (\<not> validatorsIsloading h \<and> system h = None)
      then NavigateTo ''/''
      else StakingForm (submit_disabled h f))"

text \<open>
  \<open>submitForm\<close> (the button's \<open>onClick\<close>, line 363) starts a submission: \<open>isSubmitting\<close>
  is set and \<open>onHandleSubmit\<close> runs on the current value. The effects of the run are
  recorded as one block; \<open>resetForm\<close> puts the initial value back.
\<close>

definition submitForm ::
  "('tx, 'r, 'd) hooks \<Rightarrow> ('tx, 'r, 'z) form_scheme \<Rightarrow> ('tx, 'r, 'z) form_scheme" where
  "submitForm h f =
     (let run = onHandleSubmit h (values_amount f) in
      f\<lparr>values_amount := (if ResetForm \<in> set run then initialValues else values_amount f),
        isSubmitting := True,
        issued := issued f @ run\<rparr>)"

text \<open>
  The page. React calls the component again after a change of state and commits what it
  returns; between two commits the page shows the last committed render. The \<open>disabled\<close>
  attribute of the button on the page is therefore the one computed by that render, from
  the form state it read, and \<open>onClick\<close> is \<open>submitForm\<close> itself, with no test of its
  own (line 363). The page is the form state together with the last committed render.
\<close>

record ('tx, 'r) page = "('tx, 'r) form" +
  rendered :: view

text \<open>
  Three events: a click on the submit button, which does nothing when the page shows no
  button or a disabled one and calls \<open>submitForm\<close> otherwise; the moment at which the
  promise of the running handler has resolved; and the commit of a render of the current
  state. A click is judged by the page, not by the current state: clicks that arrive
  before the next commit all see the same button.
\<close>

datatype ui_event = ClickSubmit | SubmitSettled | Render

fun step :: "('tx, 'r, 'd) hooks \<Rightarrow> ('tx, 'r) page \<Rightarrow> ui_event \<Rightarrow> ('tx, 'r) page" where
  "step h p ClickSubmit =
     (case rendered p of
        NavigateTo target \<Rightarrow> p
      | StakingForm disabled \<Rightarrow> if disabled then p else submitForm h p)"
| "step h p SubmitSettled = p\<lparr>isSubmitting := False\<rparr>"
| "step h p Render = p\<lparr>rendered := StakingCard h p\<rparr>"

definition run_events :: "('tx, 'r, 'd) hooks \<Rightarrow> ('tx, 'r) page \<Rightarrow> ui_event list \<Rightarrow> ('tx, 'r) page" where
  "run_events h p evs = foldl (step h) p evs"

text \<open>
  Event lists made of render commits and clicks in which every click comes directly after
  a commit, and nothing settles. The flag of \<open>clicks_follow_render\<close> says whether the
  event before was a commit.
\<close>

fun clicks_follow_render :: "bool \<Rightarrow> ui_event list \<Rightarrow> bool" where
  "clicks_follow_render fresh [] = True"
| "clicks_follow_render fresh (Render # evs) = clicks_follow_render True evs"
| "clicks_follow_render fresh (ClickSubmit # evs) = (fresh \<and> clicks_follow_render False evs)"
| "clicks_follow_render fresh (SubmitSettled # evs) = False"

definition rendered_clicks :: "ui_event list \<Rightarrow> bool" where
  "rendered_clicks evs = clicks_follow_render False evs"

text \<open>Classifying effects.\<close>

fun is_broadcast :: "('tx, 'r) effect \<Rightarrow> bool" where
  "is_broadcast (SignAndExecuteTransaction t opts res) = True"
| "is_broadcast e = False"

fun is_build :: "('tx, 'r) effect \<Rightarrow> bool" where
  "is_build (CreateStakeTransaction a v) = True"
| "is_build (CreateUnstakeTransaction s) = True"
| "is_build e = False"

fun is_invalidation :: "('tx, 'r) effect \<Rightarrow> bool" where
  "is_invalidation (InvalidateQueries k) = True"
| "is_invalidation e = False"

fun is_navigation :: "('tx, 'r) effect \<Rightarrow> bool" where
  "is_navigation (Navigate p q) = True"
| "is_navigation e = False"

fun is_toast :: "('tx, 'r) effect \<Rightarrow> bool" where
  "is_toast (ToastError t m) = True"
| "is_toast e = False"

section \<open>The amount parser, from the specification\<close>

text \<open>
  Modelled from the spec: \<open>parseAmount\<close> is imported from \<open>_helpers\<close> and its code is not
  part of the component. The spec describes the conversion of a FormAmount: a decimal
  string is converted to an integer count of smallest units using the coin's decimal
  precision (\<open>"2"\<close> at 9 decimals is \<open>2_000_000_000\<close>), and the input must be a
  non-negative decimal number with no more fractional digits than the precision. The
  model converts a string of digits, optionally followed by a point and at least one
  digit, and gives \<open>None\<close> on every other string.
\<close>

definition digit_value :: "char \<Rightarrow> nat option" where
  "digit_value c =
     (let n = (of_char c :: nat) in if 48 \<le> n \<and> n \<le> 57 then Some (n - 48) else None)"

fun digits_value :: "nat \<Rightarrow> string \<Rightarrow> nat option" where
  "digits_value acc [] = Some acc"
| "digits_value acc (c # cs) =
     (case digit_value c of None \<Rightarrow> None | Some d \<Rightarrow> digits_value (10 * acc + d) cs)"

definition parseAmount_spec :: "string \<Rightarrow> nat \<Rightarrow> int option" where
  "parseAmount_spec s decimals =
     (let whole = takeWhile (\<lambda>c. c \<noteq> CHR ''.'') s;
          rest = dropWhile (\<lambda>c. c \<noteq> CHR ''.'') s;
          fraction = drop 1 rest
      in if whole = [] \<or> (rest \<noteq> [] \<and> fraction = []) \<or> decimals < length fraction then None
         else
           (case digits_value 0 whole of
              None \<Rightarrow> None
            | Some w \<Rightarrow>
                (case digits_value 0 fraction of
                   None \<Rightarrow> None
                 | Some fr \<Rightarrow>
                     Some (int (w * 10 ^ decimals + fr * 10 ^ (decimals - length fraction))))))"

text \<open>A helper converts as the spec describes when it agrees with the model wherever the
  model gives a value.\<close>

definition converts_as_specified :: "(string \<Rightarrow> nat \<Rightarrow> int) \<Rightarrow> bool" where
  "converts_as_specified p = (\<forall>s d v. parseAmount_spec s d = Some v \<longrightarrow> p s d = v)"

section \<open>An example environment\<close>

text \<open>
  A concrete instance of everything a render reads, used to run the definitions: the
  delegations are a list of stake objects searched by stake id, a transaction is one of
  the two calls of the spec's TransactionBuilder, a response is its digest, and the
  validation schema follows the rules of the spec's AmountValidator.
\<close>

datatype unsigned_tx = AddStake int string | WithdrawStake string

definition example_schema :: "int \<Rightarrow> string \<Rightarrow> nat \<Rightarrow> bool \<Rightarrow> int \<Rightarrow> string \<Rightarrow> bool" where
  "example_schema balance symbol decimals unstaking minimum s =
     (case parseAmount_spec s decimals of
        None \<Rightarrow> False
      | Some a \<Rightarrow> 0 < a \<and> (unstaking \<or> (a \<le> balance \<and> minimum \<le> a)))"

definition example_hooks ::
  "bool \<Rightarrow> stake_status \<Rightarrow> (unsigned_tx, string) signer_factory option
     \<Rightarrow> (unsigned_tx, string, stake_object list) hooks" where
  "example_hooks unstaking st sg =
     \<lparr>SUI_TYPE_ARG = Some ''0x2::sui::SUI'',
      suiBalance = Some 5000000000,
      searchParams =
        [''address'' \<mapsto> ''0xV'', ''staked'' \<mapsto> ''S1'',
         ''unstake'' \<mapsto> (if unstaking then ''true'' else ''false'')],
      allDelegation = Some [\<lparr>stakedSuiId = ''S1'', status = st\<rparr>],
      system = Some 7,
      validatorsIsloading = False,
      coinDecimals = 9,
      signer = sg,
      parseAmount = (\<lambda>s d. case parseAmount_spec s d of None \<Rightarrow> 0 | Some v \<Rightarrow> v),
      createValidationSchema = example_schema,
      createStakeTransaction = (\<lambda>a v. Inr (AddStake a v)),
      createUnstakeTransaction = (\<lambda>s. Inr (WithdrawStake s)),
      getTransactionDigest = (\<lambda>r. r),
      getDelegationDataByStakeId = (\<lambda>ds sid. find (\<lambda>d. stakedSuiId d = sid) ds),
      getCoinSymbol = (\<lambda>ct. ''SUI'')\<rparr>"

text \<open>A signer that broadcasts and answers with the digest \<open>D1\<close>, and one whose broadcast
  is rejected.\<close>

definition working_signer :: "(unsigned_tx, string) signer_factory" where
  "working_signer = Inr (\<lambda>t opts. Inr ''D1'')"

definition rejecting_signer :: "(unsigned_tx, string) signer_factory" where
  "rejecting_signer = Inr (\<lambda>t opts. Inl (Some ''Rejected from user''))"

definition idle_form :: "string \<Rightarrow> (unsigned_tx, string) form" where
  "idle_form a = \<lparr>values_amount = a, isSubmitting = False, issued = []\<rparr>"

text \<open>The page on which the render of a form state has been committed.\<close>

definition rendered_page ::
  "('tx, 'r, 'd) hooks \<Rightarrow> ('tx, 'r) form \<Rightarrow> ('tx, 'r) page" where
  "rendered_page h f =
     \<lparr>values_amount = values_amount f, isSubmitting = isSubmitting f, issued = issued f,
      rendered = StakingCard h f\<rparr>"

section \<open>Auxiliary notions for the proofs\<close>

text \<open>
  What a mutation that settles with \<open>res\<close> may issue: telemetry, a builder call, the signer
  call, and a broadcast that settled with \<open>res\<close> under the options of the source. It
  issues no invalidation, no reset, no navigation and no toast.
\<close>

fun issued_by_mutation :: "thrown + 'r \<Rightarrow> ('tx, 'r) effect \<Rightarrow> bool" where
  "issued_by_mutation res (SignAndExecuteTransaction t opts r) = (r = res \<and> opts = showAll)"
| "issued_by_mutation res (InvalidateQueries k) = False"
| "issued_by_mutation res ResetForm = False"
| "issued_by_mutation res (Navigate p q) = False"
| "issued_by_mutation res (ToastError t m) = False"
| "issued_by_mutation res e = True"

text \<open>
  The mutation that \<open>onHandleSubmit\<close> awaits, if it gets past its two early returns: the
  same case analysis as in the handler, without what follows the \<open>await\<close>.
\<close>

definition awaited_mutation ::
  "('tx, 'r, 'd) hooks \<Rightarrow> string \<Rightarrow> (('tx, 'r) effect list \<times> (thrown + 'r)) option" where
  "awaited_mutation h amount =
     (case coinType h of
        None \<Rightarrow> None
      | Some tokenTypeArg \<Rightarrow>
          (case validatorAddress h of
             None \<Rightarrow> None
           | Some address \<Rightarrow>
               if unstake h then
                 (case stakeData h of
                    None \<Rightarrow> None
                  | Some sd \<Rightarrow>
                      (case stakeSuiIdParams h of
                         None \<Rightarrow> None
                       | Some sid \<Rightarrow>
                           if sid = [] \<or> status sd = Pending then None
                           else Some (unStakeToken h sid)))
               else Some (stakeToken h tokenTypeArg (parseAmount h amount (coinDecimals h)) address)))"

text \<open>
  The conditions under which \<open>onHandleSubmit\<close> does not return early (the negations of
  the tests of lines 186 and 195-199).
\<close>

definition passes_guards :: "('tx, 'r, 'd) hooks \<Rightarrow> bool" where
  "passes_guards h =
     (coinType h \<noteq> None \<and> validatorAddress h \<noteq> None
      \<and> (unstake h \<longrightarrow>
           (case stakeData h of
              None \<Rightarrow> False
            | Some sd \<Rightarrow> truthy (stakeSuiIdParams h) \<and> status sd \<noteq> Pending)))"

text \<open>The defining equations by which the examples are evaluated.\<close>

lemmas example_defs =
  example_hooks_def working_signer_def rejecting_signer_def idle_form_def example_schema_def
  parseAmount_spec_def digit_value_def

lemmas render_defs =
  coinType_def coinBalance_def validatorAddress_def stakeSuiIdParams_def unstake_def
  stakeData_def coinSymbol_def minimumStake_def validationSchema_def delegationId_def truthy_def

lemmas handler_defs =
  onHandleSubmit_def after_mutation_def on_resolved_def on_rejected_def stakeToken_def
  unStakeToken_def signAndExecute_def

lemmas form_defs =
  StakingCard_def submit_disabled_def isValid_def submitForm_def run_events_def
  initialValues_def passes_guards_def rendered_page_def rendered_clicks_def

section \<open>The shape of a run of the handler\<close>

lemma onHandleSubmit_awaited:
  "onHandleSubmit h amount =
     (case awaited_mutation h amount of None \<Rightarrow> [] | Some m \<Rightarrow> after_mutation h m)"
  by (simp add: onHandleSubmit_def awaited_mutation_def split: option.splits)

lemma signAndExecute_effects:
  assumes "signAndExecute sg built = (effs, res)"
  shows "(\<forall>e\<in>set effs. issued_by_mutation res e) \<and> length (filter is_broadcast effs) \<le> 1"
  using assms by (auto simp: signAndExecute_def split: sum.splits)

lemma stakeToken_effects:
  assumes "stakeToken h t a v = (effs, res)"
  shows "(\<forall>e\<in>set effs. issued_by_mutation res e) \<and> length (filter is_broadcast effs) \<le> 1"
proof (cases "v = [] \<or> a = 0 \<or> t = [] \<or> signer h = None")
  case True
  with assms show ?thesis by (auto simp: stakeToken_def)
next
  case False
  then obtain sg where sg: "signer h = Some sg" by auto
  obtain es r where se: "signAndExecute sg (createStakeTransaction h a v) = (es, r)"
    by (cases "signAndExecute sg (createStakeTransaction h a v)")
  from signAndExecute_effects [OF se] assms False sg se show ?thesis
    by (auto simp: stakeToken_def)
qed

lemma unStakeToken_effects:
  assumes "unStakeToken h s = (effs, res)"
  shows "(\<forall>e\<in>set effs. issued_by_mutation res e) \<and> length (filter is_broadcast effs) \<le> 1"
proof (cases "s = [] \<or> signer h = None")
  case True
  with assms show ?thesis by (auto simp: unStakeToken_def)
next
  case False
  then obtain sg where sg: "signer h = Some sg" by auto
  obtain es r where se: "signAndExecute sg (createUnstakeTransaction h s) = (es, r)"
    by (cases "signAndExecute sg (createUnstakeTransaction h s)")
  from signAndExecute_effects [OF se] assms False sg se show ?thesis
    by (auto simp: unStakeToken_def)
qed

lemma awaited_mutation_source:
  assumes "awaited_mutation h amount = Some m"
  shows "(\<exists>s. m = unStakeToken h s) \<or> (\<exists>t a v. m = stakeToken h t a v)"
  using assms by (auto simp: awaited_mutation_def split: option.splits if_splits)

lemma awaited_mutation_effects:
  assumes "awaited_mutation h amount = Some (effs, res)"
  shows "(\<forall>e\<in>set effs. issued_by_mutation res e) \<and> length (filter is_broadcast effs) \<le> 1"
proof -
  from awaited_mutation_source [OF assms] consider
    s where "unStakeToken h s = (effs, res)" | t a v where "stakeToken h t a v = (effs, res)"
    by metis
  then show ?thesis
  proof cases
    case 1
    then show ?thesis by (rule unStakeToken_effects)
  next
    case 2
    then show ?thesis by (rule stakeToken_effects)
  qed
qed

lemma issued_by_mutation_plain:
  assumes "issued_by_mutation res e"
  shows "\<not> is_navigation e \<and> \<not> is_invalidation e \<and> \<not> is_toast e \<and> e \<noteq> ResetForm"
  using assms by (cases e) simp_all

lemma mutation_effects_plain:
  assumes "\<forall>e\<in>set effs. issued_by_mutation res e"
  shows "filter is_navigation effs = []" and "filter is_invalidation effs = []"
    and "filter is_toast effs = []" and "ResetForm \<notin> set effs"
  using assms issued_by_mutation_plain by (auto simp: filter_empty_conv)

lemma mutation_effects_broadcast:
  assumes "\<forall>e\<in>set effs. issued_by_mutation res e"
    and "SignAndExecuteTransaction t opts r \<in> set effs"
  shows "r = res"
  using assms by fastforce

text \<open>The three ways in which a run of the handler ends.\<close>

lemma onHandleSubmit_shape:
  obtains (returned) "awaited_mutation h amount = None" "onHandleSubmit h amount = []"
  | (resolved) effs response where "awaited_mutation h amount = Some (effs, Inr response)"
      "onHandleSubmit h amount = effs @ on_resolved h response"
      "\<forall>e\<in>set effs. issued_by_mutation (Inr response) e"
      "length (filter is_broadcast effs) \<le> 1"
  | (rejected) effs e where "awaited_mutation h amount = Some (effs, Inl e)"
      "onHandleSubmit h amount = effs @ on_rejected h e"
      "\<forall>x\<in>set effs. issued_by_mutation (Inl e) x"
      "length (filter is_broadcast effs) \<le> 1"
proof (cases "awaited_mutation h amount")
  case None
  then show ?thesis using returned by (simp add: onHandleSubmit_awaited)
next
  case (Some m)
  obtain effs res where m: "m = (effs, res)" by (cases m)
  from awaited_mutation_effects [of h amount effs res] Some m
  have eff: "\<forall>e\<in>set effs. issued_by_mutation res e" "length (filter is_broadcast effs) \<le> 1"
    by simp_all
  show ?thesis
  proof (cases res)
    case (Inl e)
    with Some m eff show ?thesis
      using rejected [of effs e] by (simp add: onHandleSubmit_awaited after_mutation_def)
  next
    case (Inr response)
    with Some m eff show ?thesis
      using resolved [of effs response] by (simp add: onHandleSubmit_awaited after_mutation_def)
  qed
qed

lemma resolved_broadcast_run:
  assumes "SignAndExecuteTransaction t opts (Inr response) \<in> set (onHandleSubmit h amount)"
  obtains effs where "onHandleSubmit h amount = effs @ on_resolved h response"
    and "\<forall>e\<in>set effs. issued_by_mutation (Inr response) e"
proof (cases h amount rule: onHandleSubmit_shape)
  case returned
  with assms show ?thesis by simp
next
  case (resolved effs r)
  from assms resolved(2) have "SignAndExecuteTransaction t opts (Inr response) \<in> set effs"
    by (simp add: on_resolved_def)
  with resolved(3) have "Inr response = Inr r"
    by (auto dest: mutation_effects_broadcast)
  with resolved that show ?thesis by simp
next
  case (rejected effs e)
  from assms rejected(2) have "SignAndExecuteTransaction t opts (Inr response) \<in> set effs"
    by (simp add: on_rejected_def)
  with rejected(3) have "Inr response = Inl e"
    by (auto dest: mutation_effects_broadcast)
  then show ?thesis by simp
qed

lemma rejected_broadcast_run:
  assumes "SignAndExecuteTransaction t opts (Inl e) \<in> set (onHandleSubmit h amount)"
  obtains effs where "onHandleSubmit h amount = effs @ on_rejected h e"
    and "\<forall>x\<in>set effs. issued_by_mutation (Inl e) x"
proof (cases h amount rule: onHandleSubmit_shape)
  case returned
  with assms show ?thesis by simp
next
  case (resolved effs r)
  from assms resolved(2) have "SignAndExecuteTransaction t opts (Inl e) \<in> set effs"
    by (simp add: on_resolved_def)
  with resolved(3) have "Inl e = Inr r"
    by (auto dest: mutation_effects_broadcast)
  then show ?thesis by simp
next
  case (rejected effs e')
  from assms rejected(2) have "SignAndExecuteTransaction t opts (Inl e) \<in> set effs"
    by (simp add: on_rejected_def)
  with rejected(3) have "Inl e = Inl e'"
    by (auto dest: mutation_effects_broadcast)
  with rejected that show ?thesis by simp
qed

lemma passes_guards_awaited: "passes_guards h \<longleftrightarrow> awaited_mutation h amount \<noteq> None"
  by (auto simp: passes_guards_def awaited_mutation_def truthy_def split: option.splits)

lemma onHandleSubmit_broadcasts: "length (filter is_broadcast (onHandleSubmit h amount)) \<le> 1"
  by (cases h amount rule: onHandleSubmit_shape) (simp_all add: on_resolved_def on_rejected_def)

lemma stakeData_stake_id: "stakeData h = Some sd \<Longrightarrow> truthy (stakeSuiIdParams h)"
  by (auto simp: stakeData_def truthy_def split: option.splits if_splits)

lemma enabled_button:
  assumes "StakingCard h f = StakingForm False"
  shows "truthy (coinType h)" and "truthy (validatorAddress h)" and "isValid h f"
    and "\<not> isSubmitting f" and "unstake h \<Longrightarrow> truthy (delegationId h)"
  using assms by (auto simp: StakingCard_def submit_disabled_def split: if_splits)

lemma enabled_button_passes_guards:
  assumes "StakingCard h f = StakingForm False"
  shows "passes_guards h"
proof -
  note en = enabled_button [OF assms]
  from en(1,2) have "coinType h \<noteq> None" "validatorAddress h \<noteq> None"
    by (auto simp: truthy_def split: option.splits)
  moreover have "case stakeData h of None \<Rightarrow> False
                 | Some sd \<Rightarrow> truthy (stakeSuiIdParams h) \<and> status sd \<noteq> Pending"
    if "unstake h"
  proof -
    from en(5) [OF that] obtain sd where sd: "stakeData h = Some sd" "status sd \<noteq> Pending"
      by (auto simp: delegationId_def truthy_def split: option.splits if_splits)
    with stakeData_stake_id [OF sd(1)] show ?thesis by simp
  qed
  ultimately show ?thesis by (simp add: passes_guards_def)
qed

lemma StakingCard_cong:
  "values_amount f = values_amount g \<Longrightarrow> isSubmitting f = isSubmitting g \<Longrightarrow>
     StakingCard h f = StakingCard h g"
  by (simp add: StakingCard_def submit_disabled_def isValid_def)

lemma click_while_submitting:
  "isSubmitting f \<Longrightarrow> rendered p = StakingCard h f \<Longrightarrow> step h p ClickSubmit = p"
  by (simp add: StakingCard_def submit_disabled_def)

lemma click_cases: "step h p ClickSubmit = p \<or> step h p ClickSubmit = submitForm h p"
  by (simp split: view.splits)

lemma submitForm_fields:
  "isSubmitting (submitForm h f)"
  "issued (submitForm h f) = issued f @ onHandleSubmit h (values_amount f)"
  by (simp_all add: submitForm_def Let_def)

lemma run_events_Cons: "run_events h p (ev # evs) = run_events h (step h p ev) evs"
  by (simp add: run_events_def)

lemma run_events_Nil: "run_events h p [] = p"
  by (simp add: run_events_def)

text \<open>
  While a submission is running, clicks that follow a commit start nothing: when the
  flag of \<open>clicks_follow_render\<close> is set the page shows the current state.
\<close>

lemma clicks_while_submitting:
  "clicks_follow_render fresh evs \<Longrightarrow> (fresh \<Longrightarrow> rendered p = StakingCard h p) \<Longrightarrow>
   isSubmitting p \<Longrightarrow>
     isSubmitting (run_events h p evs) \<and> issued (run_events h p evs) = issued p"
proof (induction fresh evs arbitrary: p rule: clicks_follow_render.induct)
  case (1 fresh)
  then show ?case by (simp add: run_events_Nil)
next
  case (2 fresh evs)
  have "isSubmitting (run_events h (step h p Render) evs)
        \<and> issued (run_events h (step h p Render) evs) = issued (step h p Render)"
  proof (rule "2.IH")
    from "2.prems"(1) show "clicks_follow_render True evs" by simp
    show "rendered (step h p Render) = StakingCard h (step h p Render)"
      by (simp add: StakingCard_def submit_disabled_def isValid_def)
    from "2.prems"(3) show "isSubmitting (step h p Render)" by simp
  qed
  then show ?case by (simp add: run_events_Cons)
next
  case (3 fresh evs)
  from "3.prems"(1) have fresh: fresh and rest: "clicks_follow_render False evs" by simp_all
  from "3.prems"(2) [OF fresh] "3.prems"(3) have same: "step h p ClickSubmit = p"
    by (rule click_while_submitting [rotated])
  have "isSubmitting (run_events h p evs) \<and> issued (run_events h p evs) = issued p"
    using fresh rest "3.prems"(3) by (intro "3.IH") simp_all
  with same show ?case by (simp only: run_events_Cons)
next
  case (4 fresh evs)
  then show ?case by simp
qed

lemma clicks_broadcasts:
  "clicks_follow_render fresh evs \<Longrightarrow> (fresh \<Longrightarrow> rendered p = StakingCard h p) \<Longrightarrow>
     length (filter is_broadcast (issued (run_events h p evs)))
       \<le> length (filter is_broadcast (issued p)) + 1"
proof (induction fresh evs arbitrary: p rule: clicks_follow_render.induct)
  case (1 fresh)
  then show ?case by (simp add: run_events_Nil)
next
  case (2 fresh evs)
  have "length (filter is_broadcast (issued (run_events h (step h p Render) evs)))
          \<le> length (filter is_broadcast (issued (step h p Render))) + 1"
  proof (rule "2.IH")
    from "2.prems"(1) show "clicks_follow_render True evs" by simp
    show "rendered (step h p Render) = StakingCard h (step h p Render)"
      by (simp add: StakingCard_def submit_disabled_def isValid_def)
  qed
  then show ?case by (simp add: run_events_Cons)
next
  case (3 fresh evs)
  from "3.prems"(1) have rest: "clicks_follow_render False evs" by simp
  from click_cases [of h p] show ?case
  proof
    assume same: "step h p ClickSubmit = p"
    have "length (filter is_broadcast (issued (run_events h p evs)))
            \<le> length (filter is_broadcast (issued p)) + 1"
      using "3.prems"(1) by (intro "3.IH") simp_all
    with same show ?thesis by (simp only: run_events_Cons)
  next
    assume sub: "step h p ClickSubmit = submitForm h p"
    have "isSubmitting (run_events h (submitForm h p) evs)
        \<and> issued (run_events h (submitForm h p) evs) = issued (submitForm h p)"
      by (rule clicks_while_submitting [OF rest]) (simp_all add: submitForm_fields)
    with sub onHandleSubmit_broadcasts [of h "values_amount p"] show ?thesis
      by (simp only: run_events_Cons) (simp add: submitForm_fields)
  qed
next
  case (4 fresh evs)
  then show ?case by simp
qed

lemma rendered_clicks_broadcasts:
  assumes "rendered_clicks evs"
  shows "length (filter is_broadcast (issued (run_events h p evs)))
           \<le> length (filter is_broadcast (issued p)) + 1"
  using assms unfolding rendered_clicks_def by (rule clicks_broadcasts) simp

text \<open>In unstake mode what a run builds or broadcasts comes from the unstake mutation,
  called on the \<open>staked\<close> search parameter.\<close>

lemma unStakeToken_request:
  assumes "e \<in> set (fst (unStakeToken h s))"
  shows "(is_build e \<longrightarrow> e = CreateUnstakeTransaction s)
         \<and> (\<forall>t opts res. e = SignAndExecuteTransaction t opts res \<longrightarrow>
               createUnstakeTransaction h s = Inr t \<and> opts = showAll)"
  using assms
  by (auto simp: unStakeToken_def signAndExecute_def split: option.splits sum.splits if_splits)

lemma after_mutation_request:
  assumes "e \<in> set (after_mutation h m)" and "is_build e \<or> is_broadcast e"
  shows "e \<in> set (fst m)"
  using assms
  by (cases m) (auto simp: after_mutation_def on_resolved_def on_rejected_def split: sum.splits)

lemma unstake_awaited:
  assumes "unstake h" and "awaited_mutation h amount = Some m"
  shows "\<exists>sid. stakeSuiIdParams h = Some sid \<and> m = unStakeToken h sid"
  using assms by (auto simp: awaited_mutation_def split: option.splits if_splits)

lemma unstake_run_request:
  assumes "unstake h" and "e \<in> set (onHandleSubmit h amount)" and "is_build e \<or> is_broadcast e"
  obtains sid where "stakeSuiIdParams h = Some sid" and "e \<in> set (fst (unStakeToken h sid))"
proof (cases "awaited_mutation h amount")
  case None
  with assms(2) show ?thesis by (simp add: onHandleSubmit_awaited)
next
  case (Some m)
  from unstake_awaited [OF assms(1) Some] obtain sid
    where sid: "stakeSuiIdParams h = Some sid" "m = unStakeToken h sid" by blast
  from assms(2) Some have "e \<in> set (after_mutation h m)" by (simp add: onHandleSubmit_awaited)
  from after_mutation_request [OF this assms(3)] sid that show ?thesis by simp
qed

lemma parseAmount_spec_one: "parseAmount_spec ''1'' d = Some (10 ^ d)"
  by (simp add: parseAmount_spec_def digit_value_def)

section \<open>The claims\<close>

subsection \<open>Navigation after a successful submission\<close>

text \<open>
  Claim C1. Whenever the broadcast of a run resolved, in stake mode as in unstake mode, the
  run navigates exactly once, to \<open>/receipt\<close> with \<open>txdigest\<close> set to the digest of the
  response and \<open>from\<close> set to the literal \<open>stake\<close>, and this is its last effect.
\<close>

theorem receipt_navigation_from_stake:
  assumes "SignAndExecuteTransaction t opts (Inr response) \<in> set (onHandleSubmit h amount)"
  shows "filter is_navigation (onHandleSubmit h amount) =
           [Navigate ''/receipt''
              [(''txdigest'', getTransactionDigest h response), (''from'', ''stake'')]]
         \<and> last (onHandleSubmit h amount) =
             Navigate ''/receipt''
               [(''txdigest'', getTransactionDigest h response), (''from'', ''stake'')]"
proof -
  from assms obtain effs where run: "onHandleSubmit h amount = effs @ on_resolved h response"
    and plain: "\<forall>e\<in>set effs. issued_by_mutation (Inr response) e"
    by (rule resolved_broadcast_run)
  from plain have "filter is_navigation effs = []" by (rule mutation_effects_plain)
  with run show ?thesis by (simp add: on_resolved_def)
qed

theorem receipt_navigation_from_stake_witness:
  "SignAndExecuteTransaction (WithdrawStake ''S1'') showAll (Inr ''D1'')
     \<in> set (onHandleSubmit (example_hooks True Active (Some working_signer)) ''1'')
   \<and> filter is_navigation (onHandleSubmit (example_hooks True Active (Some working_signer)) ''1'') =
       [Navigate ''/receipt'' [(''txdigest'', ''D1''), (''from'', ''stake'')]]
   \<and> SignAndExecuteTransaction (AddStake 2000000000 ''0xV'') showAll (Inr ''D1'')
     \<in> set (onHandleSubmit (example_hooks False Active (Some working_signer)) ''2'')
   \<and> filter is_navigation (onHandleSubmit (example_hooks False Active (Some working_signer)) ''2'') =
       [Navigate ''/receipt'' [(''txdigest'', ''D1''), (''from'', ''stake'')]]"
  using receipt_navigation_from_stake [where t = "WithdrawStake ''S1''" and opts = showAll
      and response = "''D1''" and h = "example_hooks True Active (Some working_signer)"
      and amount = "''1''"]
    receipt_navigation_from_stake [where t = "AddStake 2000000000 ''0xV''" and opts = showAll
      and response = "''D1''" and h = "example_hooks False Active (Some working_signer)"
      and amount = "''2''"]
  by (simp add: example_defs render_defs handler_defs)

subsection \<open>Repeated submission\<close>

text \<open>
  Claim C2, as stated, fails: neither \<open>onHandleSubmit\<close> nor the button's \<open>onClick\<close>
  reads any in-flight state. Started a second time while \<open>isSubmitting\<close> is still set,
  the handler broadcasts again: in unstake mode two submissions of the same form issue two
  broadcasts, and three clicks on the page that arrive before the next render is
  committed issue three.
\<close>

theorem double_submit_counterexample:
  "isSubmitting (submitForm (example_hooks True Active (Some working_signer)) (idle_form ''1''))
   \<and> length (filter is_broadcast (issued
        (submitForm (example_hooks True Active (Some working_signer))
           (submitForm (example_hooks True Active (Some working_signer)) (idle_form ''1''))))) = 2
   \<and> length (filter is_broadcast (issued
        (run_events (example_hooks True Active (Some working_signer))
           (rendered_page (example_hooks True Active (Some working_signer)) (idle_form ''1''))
           [ClickSubmit, ClickSubmit, ClickSubmit]))) = 3"
  by (simp add: example_defs render_defs handler_defs form_defs Let_def)

text \<open>
  Claim C2, amended. The only gate is the \<open>disabled\<close> attribute of the submit button as
  of the last committed render. A click on a page whose render was made of a state with
  \<open>isSubmitting\<close> set changes nothing; and when every click comes directly after the
  commit of a render, any number of clicks with no settlement between them adds at most
  one broadcast to those issued before. (Clicks that arrive before the next commit are
  not covered: each of them starts a run.)
\<close>

theorem button_single_flight:
  "(isSubmitting f \<and> rendered p = StakingCard h f \<longrightarrow> step h p ClickSubmit = p)
   \<and> (rendered_clicks evs \<longrightarrow>
        length (filter is_broadcast (issued (run_events h p evs)))
          \<le> length (filter is_broadcast (issued p)) + 1)"
  using click_while_submitting [of f p h] rendered_clicks_broadcasts [of evs h p] by blast

theorem button_single_flight_witness:
  "isSubmitting (submitForm (example_hooks True Active (Some working_signer)) (idle_form ''1''))
   \<and> step (example_hooks True Active (Some working_signer))
        (rendered_page (example_hooks True Active (Some working_signer))
           (submitForm (example_hooks True Active (Some working_signer)) (idle_form ''1'')))
        ClickSubmit
      = rendered_page (example_hooks True Active (Some working_signer))
          (submitForm (example_hooks True Active (Some working_signer)) (idle_form ''1''))
   \<and> rendered_clicks [Render, ClickSubmit, Render, ClickSubmit, Render, ClickSubmit]
   \<and> \<not> rendered_clicks [ClickSubmit, ClickSubmit, ClickSubmit]
   \<and> length (filter is_broadcast (issued
        (run_events (example_hooks True Active (Some working_signer))
           (rendered_page (example_hooks True Active (Some working_signer)) (idle_form ''1''))
           [Render, ClickSubmit, Render, ClickSubmit, Render, ClickSubmit]))) = 1"
  using button_single_flight [where h = "example_hooks True Active (Some working_signer)"
      and f = "submitForm (example_hooks True Active (Some working_signer)) (idle_form ''1'')"
      and p = "rendered_page (example_hooks True Active (Some working_signer))
                 (submitForm (example_hooks True Active (Some working_signer)) (idle_form ''1''))"
      and evs = "[]"]
    button_single_flight [where h = "example_hooks True Active (Some working_signer)"
      and f = "idle_form ''1''"
      and p = "rendered_page (example_hooks True Active (Some working_signer)) (idle_form ''1'')"
      and evs = "[Render, ClickSubmit, Render, ClickSubmit, Render, ClickSubmit]"]
  by (simp add: example_defs render_defs handler_defs form_defs Let_def)

subsection \<open>A rejected broadcast\<close>

text \<open>
  Claim C3. When the broadcast of a run is rejected, the run issues no invalidation and no
  navigation, does not reset the form, and ends with the error toast carrying the message.
  When the run was started by a click on a page that shows the current state with the
  submit button enabled then, once the run has settled and the render is committed (with
  or without a commit while the run was in flight), the page is as before (same value,
  not submitting, button enabled) apart from the recorded effects, and a click on it
  starts a new run.
\<close>

theorem failed_broadcast_commits_nothing:
  assumes "SignAndExecuteTransaction t opts (Inl e) \<in> set (onHandleSubmit h (values_amount p))"
  shows "filter is_invalidation (onHandleSubmit h (values_amount p)) = []
         \<and> filter is_navigation (onHandleSubmit h (values_amount p)) = []
         \<and> ResetForm \<notin> set (onHandleSubmit h (values_amount p))
         \<and> last (onHandleSubmit h (values_amount p)) =
             ToastError ((if unstake h then ''Unstake'' else ''Stake'') @ '' failed'')
               (case e of None \<Rightarrow> None | Some msg \<Rightarrow> if msg = [] then None else Some msg)
         \<and> (rendered p = StakingCard h p \<and> StakingCard h p = StakingForm False \<longrightarrow>
               run_events h p [ClickSubmit, SubmitSettled, Render] =
                 p\<lparr>issued := issued p @ onHandleSubmit h (values_amount p)\<rparr>
               \<and> run_events h p [ClickSubmit, Render, SubmitSettled, Render] =
                 p\<lparr>issued := issued p @ onHandleSubmit h (values_amount p)\<rparr>
               \<and> StakingCard h (run_events h p [ClickSubmit, SubmitSettled, Render])
                   = StakingForm False
               \<and> rendered (run_events h p [ClickSubmit, SubmitSettled, Render])
                   = StakingForm False
               \<and> step h (run_events h p [ClickSubmit, SubmitSettled, Render]) ClickSubmit =
                   submitForm h (run_events h p [ClickSubmit, SubmitSettled, Render]))"
proof -
  from assms obtain effs where run: "onHandleSubmit h (values_amount p) = effs @ on_rejected h e"
    and plain: "\<forall>x\<in>set effs. issued_by_mutation (Inl e) x"
    by (rule rejected_broadcast_run)
  note pl = mutation_effects_plain [OF plain]
  have a: "filter is_invalidation (onHandleSubmit h (values_amount p)) = []"
    using run pl by (simp add: on_rejected_def)
  have b: "filter is_navigation (onHandleSubmit h (values_amount p)) = []"
    using run pl by (simp add: on_rejected_def)
  have c: "ResetForm \<notin> set (onHandleSubmit h (values_amount p))"
    using run pl by (simp add: on_rejected_def)
  have d: "last (onHandleSubmit h (values_amount p)) =
             ToastError ((if unstake h then ''Unstake'' else ''Stake'') @ '' failed'')
               (case e of None \<Rightarrow> None | Some msg \<Rightarrow> if msg = [] then None else Some msg)"
    using run by (simp add: on_rejected_def)
  have g: "run_events h p [ClickSubmit, SubmitSettled, Render] =
             p\<lparr>issued := issued p @ onHandleSubmit h (values_amount p)\<rparr>
           \<and> run_events h p [ClickSubmit, Render, SubmitSettled, Render] =
             p\<lparr>issued := issued p @ onHandleSubmit h (values_amount p)\<rparr>
           \<and> StakingCard h (run_events h p [ClickSubmit, SubmitSettled, Render])
               = StakingForm False
           \<and> rendered (run_events h p [ClickSubmit, SubmitSettled, Render])
               = StakingForm False
           \<and> step h (run_events h p [ClickSubmit, SubmitSettled, Render]) ClickSubmit =
               submitForm h (run_events h p [ClickSubmit, SubmitSettled, Render])"
    if shown: "rendered p = StakingCard h p" and enabled: "StakingCard h p = StakingForm False"
  proof -
    from enabled_button(4) [OF enabled] have idle: "\<not> isSubmitting p" .
    from shown enabled have page: "rendered p = StakingForm False" by simp
    let ?q = "p\<lparr>issued := issued p @ onHandleSubmit h (values_amount p)\<rparr>"
    have "StakingCard h ?q = StakingCard h p"
      by (simp add: StakingCard_def submit_disabled_def isValid_def)
    with enabled have view: "StakingCard h ?q = StakingForm False" by simp
    have clicked: "step h p ClickSubmit = ?q\<lparr>isSubmitting := True\<rparr>"
      using page c by (simp add: submitForm_def Let_def)
    have "StakingCard h (?q\<lparr>isSubmitting := False\<rparr>) = StakingCard h p"
      using idle by (simp add: StakingCard_def submit_disabled_def isValid_def)
    with enabled have card: "StakingCard h (?q\<lparr>isSubmitting := False\<rparr>) = StakingForm False"
      by simp
    have restored: "?q\<lparr>isSubmitting := False, rendered := StakingForm False\<rparr> = ?q"
      using idle page by simp
    have one: "run_events h p [ClickSubmit, SubmitSettled, Render] = ?q"
      using clicked card restored by (simp add: run_events_def)
    have "StakingCard h (step h (step h (step h p ClickSubmit) Render) SubmitSettled) =
            StakingCard h p"
      using idle clicked by (intro StakingCard_cong) simp_all
    with enabled
    have card': "StakingCard h (step h (step h (step h p ClickSubmit) Render) SubmitSettled) =
            StakingForm False"
      by simp
    have "run_events h p [ClickSubmit, Render, SubmitSettled, Render] =
            step h (step h (step h (step h p ClickSubmit) Render) SubmitSettled) Render"
      by (simp only: run_events_def foldl.simps)
    also have "\<dots> = (step h (step h (step h p ClickSubmit) Render) SubmitSettled)
              \<lparr>rendered := StakingCard h
                 (step h (step h (step h p ClickSubmit) Render) SubmitSettled)\<rparr>"
      by (simp only: step.simps(3))
    also have "\<dots> = (step h (step h (step h p ClickSubmit) Render) SubmitSettled)
              \<lparr>rendered := StakingForm False\<rparr>"
      by (simp only: card')
    also have "\<dots> = ?q"
      using idle page clicked by simp
    finally have two: "run_events h p [ClickSubmit, Render, SubmitSettled, Render] = ?q" .
    have three: "rendered ?q = StakingForm False" using page by simp
    from one view three have "step h (run_events h p [ClickSubmit, SubmitSettled, Render]) ClickSubmit =
                 submitForm h (run_events h p [ClickSubmit, SubmitSettled, Render])"
      by simp
    with one two view three show ?thesis by simp
  qed
  from a b c d g show ?thesis by blast
qed

theorem failed_broadcast_commits_nothing_witness:
  "SignAndExecuteTransaction (AddStake 2000000000 ''0xV'') showAll (Inl (Some ''Rejected from user''))
     \<in> set (onHandleSubmit (example_hooks False Active (Some rejecting_signer))
              (values_amount
                 (rendered_page (example_hooks False Active (Some rejecting_signer))
                    (idle_form ''2''))))
   \<and> rendered (rendered_page (example_hooks False Active (Some rejecting_signer)) (idle_form ''2''))
       = StakingCard (example_hooks False Active (Some rejecting_signer))
           (rendered_page (example_hooks False Active (Some rejecting_signer)) (idle_form ''2''))
   \<and> StakingCard (example_hooks False Active (Some rejecting_signer))
        (rendered_page (example_hooks False Active (Some rejecting_signer)) (idle_form ''2''))
       = StakingForm False
   \<and> filter is_invalidation
        (onHandleSubmit (example_hooks False Active (Some rejecting_signer)) ''2'') = []
   \<and> last (onHandleSubmit (example_hooks False Active (Some rejecting_signer)) ''2'')
       = ToastError ''Stake failed'' (Some ''Rejected from user'')
   \<and> rendered
        (run_events (example_hooks False Active (Some rejecting_signer))
           (rendered_page (example_hooks False Active (Some rejecting_signer)) (idle_form ''2''))
           [ClickSubmit, SubmitSettled, Render])
       = StakingForm False
   \<and> length (filter is_broadcast (issued
        (run_events (example_hooks False Active (Some rejecting_signer))
           (rendered_page (example_hooks False Active (Some rejecting_signer)) (idle_form ''2''))
           [ClickSubmit, SubmitSettled, Render, ClickSubmit]))) = 2"
  using failed_broadcast_commits_nothing [where t = "AddStake 2000000000 ''0xV''"
      and opts = showAll and e = "Some ''Rejected from user''"
      and h = "example_hooks False Active (Some rejecting_signer)"
      and p = "rendered_page (example_hooks False Active (Some rejecting_signer)) (idle_form ''2'')"]
  by (simp add: example_defs render_defs handler_defs form_defs Let_def)

subsection \<open>The exits of the handler\<close>

text \<open>
  Claim C4, as stated, fails: in unstake mode with a \<open>Pending\<close> position the handler
  returns at line 200 having issued neither a navigation nor a toast.
\<close>

theorem silent_return_counterexample:
  "\<not> (\<exists>e\<in>set (onHandleSubmit (example_hooks True Pending (Some working_signer)) ''1'').
         is_navigation e \<or> is_toast e)"
  by (simp add: example_defs render_defs handler_defs)

text \<open>
  Claim C4, amended. A run that gets past the two early returns is not empty, ends in a
  navigation or in an error toast, and issues exactly one of the two; a run that does not
  get past them issues nothing. A run started from the enabled submit button always gets
  past them.
\<close>

theorem handler_exits:
  "(passes_guards h \<longrightarrow>
      onHandleSubmit h amount \<noteq> []
      \<and> (is_navigation (last (onHandleSubmit h amount)) \<or> is_toast (last (onHandleSubmit h amount)))
      \<and> length (filter (\<lambda>e. is_navigation e \<or> is_toast e) (onHandleSubmit h amount)) = 1)
   \<and> (\<not> passes_guards h \<longrightarrow> onHandleSubmit h amount = [])
   \<and> (StakingCard h f = StakingForm False \<longrightarrow> passes_guards h)"
proof (cases h amount rule: onHandleSubmit_shape)
  case returned
  then show ?thesis
    using enabled_button_passes_guards [of h f] by (auto simp: passes_guards_awaited [of h amount])
next
  case (resolved effs response)
  from resolved(3) have "filter (\<lambda>e. is_navigation e \<or> is_toast e) effs = []"
    using issued_by_mutation_plain by (auto simp: filter_empty_conv)
  with resolved show ?thesis
    using enabled_button_passes_guards [of h f]
    by (simp add: passes_guards_awaited [of h amount] on_resolved_def)
next
  case (rejected effs e)
  from rejected(3) have "filter (\<lambda>e. is_navigation e \<or> is_toast e) effs = []"
    using issued_by_mutation_plain by (auto simp: filter_empty_conv)
  with rejected show ?thesis
    using enabled_button_passes_guards [of h f]
    by (simp add: passes_guards_awaited [of h amount] on_rejected_def)
qed

theorem handler_exits_witness:
  "passes_guards (example_hooks False Active (Some rejecting_signer))
   \<and> is_toast (last (onHandleSubmit (example_hooks False Active (Some rejecting_signer)) ''2''))
   \<and> \<not> passes_guards (example_hooks True Pending (Some working_signer))
   \<and> onHandleSubmit (example_hooks True Pending (Some working_signer)) ''1'' = []
   \<and> StakingCard (example_hooks True Active (Some working_signer)) (idle_form ''1'')
       = StakingForm False
   \<and> is_navigation (last (onHandleSubmit (example_hooks True Active (Some working_signer)) ''1''))"
  using handler_exits [where h = "example_hooks False Active (Some rejecting_signer)"
      and amount = "''2''" and f = "idle_form ''2''"]
    handler_exits [where h = "example_hooks True Pending (Some working_signer)"
      and amount = "''1''" and f = "idle_form ''1''"]
    handler_exits [where h = "example_hooks True Active (Some working_signer)"
      and amount = "''1''" and f = "idle_form ''1''"]
  by (simp add: example_defs render_defs handler_defs form_defs)

subsection \<open>Unstaking needs an active position\<close>

text \<open>
  Claim C5. In unstake mode a run builds or broadcasts a transaction only if the stake
  data is present with status \<open>Active\<close>. When the stake data is absent or \<open>Pending\<close>, the
  handler issues nothing, no render of the component, whatever the form state, has the
  submit button enabled, and a click on a page showing any such render changes nothing.
  Without a stake id there is no stake data.
\<close>

theorem unstake_only_active:
  assumes "unstake h"
  shows "((\<exists>e\<in>set (onHandleSubmit h amount). is_build e \<or> is_broadcast e)
            \<longrightarrow> (\<exists>sd. stakeData h = Some sd \<and> status sd = Active))
         \<and> ((stakeData h = None \<or> (\<exists>sd. stakeData h = Some sd \<and> status sd = Pending))
            \<longrightarrow> onHandleSubmit h amount = [] \<and> StakingCard h f \<noteq> StakingForm False
                \<and> (rendered p = StakingCard h f \<longrightarrow> step h p ClickSubmit = p))
         \<and> (\<not> truthy (stakeSuiIdParams h) \<longrightarrow> stakeData h = None)"
proof (intro conjI impI)
  assume "\<exists>e\<in>set (onHandleSubmit h amount). is_build e \<or> is_broadcast e"
  then have "onHandleSubmit h amount \<noteq> []" by auto
  with assms obtain sd where "stakeData h = Some sd" "status sd \<noteq> Pending"
    by (auto simp: onHandleSubmit_def Let_def split: option.splits if_splits)
  then show "\<exists>sd. stakeData h = Some sd \<and> status sd = Active"
    by (cases "status sd") auto
next
  assume bad: "stakeData h = None \<or> (\<exists>sd. stakeData h = Some sd \<and> status sd = Pending)"
  with assms show "onHandleSubmit h amount = []"
    by (auto simp: onHandleSubmit_def Let_def split: option.splits)
  from bad assms have dis: "submit_disabled h f"
    by (auto simp: submit_disabled_def delegationId_def truthy_def)
  then show "StakingCard h f \<noteq> StakingForm False"
    by (simp add: StakingCard_def)
  from dis show "step h p ClickSubmit = p" if "rendered p = StakingCard h f"
    using that by (simp add: StakingCard_def)
next
  assume "\<not> truthy (stakeSuiIdParams h)"
  then show "stakeData h = None"
    by (auto simp: stakeData_def truthy_def split: option.splits)
qed

theorem unstake_only_active_witness:
  "unstake (example_hooks True Pending (Some working_signer))
   \<and> stakeData (example_hooks True Pending (Some working_signer))
       = Some \<lparr>stakedSuiId = ''S1'', status = Pending\<rparr>
   \<and> onHandleSubmit (example_hooks True Pending (Some working_signer)) ''1'' = []
   \<and> rendered (rendered_page (example_hooks True Pending (Some working_signer)) (idle_form ''1''))
       = StakingCard (example_hooks True Pending (Some working_signer)) (idle_form ''1'')
   \<and> step (example_hooks True Pending (Some working_signer))
        (rendered_page (example_hooks True Pending (Some working_signer)) (idle_form ''1''))
        ClickSubmit
       = rendered_page (example_hooks True Pending (Some working_signer)) (idle_form ''1'')
   \<and> unstake (example_hooks True Active (Some working_signer))
   \<and> is_build (onHandleSubmit (example_hooks True Active (Some working_signer)) ''1'' ! 2)
   \<and> stakeData (example_hooks True Active (Some working_signer))
       = Some \<lparr>stakedSuiId = ''S1'', status = Active\<rparr>"
  using unstake_only_active [where h = "example_hooks True Pending (Some working_signer)"
      and amount = "''1''" and f = "idle_form ''1''"
      and p = "rendered_page (example_hooks True Pending (Some working_signer)) (idle_form ''1'')"]
    unstake_only_active [where h = "example_hooks True Active (Some working_signer)"
      and amount = "''1''" and f = "idle_form ''1''"
      and p = "rendered_page (example_hooks True Active (Some working_signer)) (idle_form ''1'')"]
  by (simp add: example_defs render_defs handler_defs form_defs)

subsection \<open>Reconciliation after a successful submission\<close>

text \<open>
  Claim C6. Whenever the broadcast of a run resolved, the invalidations of the run are
  exactly those of the keys \<open>['system', 'state']\<close> and \<open>['validator']\<close>; they are
  followed at once (nothing is awaited in between) by the reset of the form and the
  navigation to the receipt view with the digest, which end the run; the form holds the
  initial value afterwards.
\<close>

theorem success_reconciliation:
  assumes "SignAndExecuteTransaction t opts (Inr response) \<in> set (onHandleSubmit h (values_amount f))"
  shows "filter is_invalidation (onHandleSubmit h (values_amount f)) =
           [InvalidateQueries [''system'', ''state''], InvalidateQueries [''validator'']]
         \<and> (\<exists>effs. onHandleSubmit h (values_amount f) =
               effs @ [InvalidateQueries [''system'', ''state''], InvalidateQueries [''validator''],
                       ResetForm,
                       Navigate ''/receipt''
                         [(''txdigest'', getTransactionDigest h response), (''from'', ''stake'')]]
             \<and> (\<forall>e\<in>set effs. \<not> is_invalidation e \<and> \<not> is_navigation e \<and> \<not> is_toast e
                    \<and> e \<noteq> ResetForm))
         \<and> values_amount (submitForm h f) = initialValues"
proof -
  from assms obtain effs where run: "onHandleSubmit h (values_amount f) = effs @ on_resolved h response"
    and plain: "\<forall>e\<in>set effs. issued_by_mutation (Inr response) e"
    by (rule resolved_broadcast_run)
  from plain have none: "filter is_invalidation effs = []" by (rule mutation_effects_plain)
  from plain have all: "\<forall>e\<in>set effs. \<not> is_invalidation e \<and> \<not> is_navigation e \<and> \<not> is_toast e
      \<and> e \<noteq> ResetForm"
    using issued_by_mutation_plain by blast
  have "filter is_invalidation (onHandleSubmit h (values_amount f)) =
      [InvalidateQueries [''system'', ''state''], InvalidateQueries [''validator'']]"
    using run none by (simp add: on_resolved_def)
  moreover have "\<exists>effs. onHandleSubmit h (values_amount f) =
               effs @ [InvalidateQueries [''system'', ''state''], InvalidateQueries [''validator''],
                       ResetForm,
                       Navigate ''/receipt''
                         [(''txdigest'', getTransactionDigest h response), (''from'', ''stake'')]]
             \<and> (\<forall>e\<in>set effs. \<not> is_invalidation e \<and> \<not> is_navigation e \<and> \<not> is_toast e
                    \<and> e \<noteq> ResetForm)"
    using run all by (auto simp: on_resolved_def)
  moreover have "values_amount (submitForm h f) = initialValues"
    using run by (simp add: submitForm_def Let_def on_resolved_def)
  ultimately show ?thesis by blast
qed

theorem success_reconciliation_witness:
  "SignAndExecuteTransaction (WithdrawStake ''S1'') showAll (Inr ''D1'')
     \<in> set (onHandleSubmit (example_hooks True Active (Some working_signer))
              (values_amount (idle_form ''1'')))
   \<and> filter is_invalidation
        (onHandleSubmit (example_hooks True Active (Some working_signer)) ''1'') =
       [InvalidateQueries [''system'', ''state''], InvalidateQueries [''validator'']]
   \<and> values_amount (submitForm (example_hooks True Active (Some working_signer)) (idle_form ''1''))
       = []"
  using success_reconciliation [where t = "WithdrawStake ''S1''" and opts = showAll
      and response = "''D1''" and h = "example_hooks True Active (Some working_signer)"
      and f = "idle_form ''1''"]
  by (simp add: example_defs render_defs handler_defs form_defs Let_def)

subsection \<open>Preconditions of the mutations\<close>

text \<open>
  Claim C7. The stake mutation called with an empty validator address, a zero amount or an
  empty coin type, or without a signer, and the unstake mutation called with an empty
  stake id or without a signer, reject with the error \<open>Failed, missing required field\<close>
  having issued nothing: no telemetry, no builder call, no broadcast.
\<close>

theorem mutations_reject_missing_fields:
  "((validatorAddress' = [] \<or> amount = 0 \<or> tokenTypeArg = [] \<or> signer h = None)
      \<longrightarrow> stakeToken h tokenTypeArg amount validatorAddress' =
            ([], Inl (Some ''Failed, missing required field'')))
   \<and> ((stakedSuiId' = [] \<or> signer h = None)
      \<longrightarrow> unStakeToken h stakedSuiId' = ([], Inl (Some ''Failed, missing required field.'')))"
  by (simp add: stakeToken_def unStakeToken_def)

theorem mutations_reject_missing_fields_witness:
  "stakeToken (example_hooks False Active None) ''0x2::sui::SUI'' 2000000000 ''0xV''
     = ([], Inl (Some ''Failed, missing required field''))
   \<and> stakeToken (example_hooks False Active (Some working_signer)) ''0x2::sui::SUI'' 0 ''0xV''
     = ([], Inl (Some ''Failed, missing required field''))
   \<and> unStakeToken (example_hooks True Active (Some working_signer)) []
     = ([], Inl (Some ''Failed, missing required field.''))"
  using mutations_reject_missing_fields [where h = "example_hooks False Active None"
      and tokenTypeArg = "''0x2::sui::SUI''" and amount = 2000000000
      and validatorAddress' = "''0xV''" and stakedSuiId' = "''S1''"]
    mutations_reject_missing_fields [where h = "example_hooks False Active (Some working_signer)"
      and tokenTypeArg = "''0x2::sui::SUI''" and amount = 0
      and validatorAddress' = "''0xV''" and stakedSuiId' = "[]"]
    mutations_reject_missing_fields [where h = "example_hooks True Active (Some working_signer)"
      and tokenTypeArg = "''0x2::sui::SUI''" and amount = 0
      and validatorAddress' = "''0xV''" and stakedSuiId' = "[]"]
  by (simp add: example_hooks_def)

subsection \<open>Missing identifying parameters\<close>

text \<open>
  Claim C8. Without a coin type or without a validator address (absent or empty) the
  component renders the redirect to \<open>/\<close> instead of the form, whatever the form state,
  and on a page showing any such render a click on the submit button, which is not
  there, changes nothing.
\<close>

theorem missing_parameters_redirect:
  assumes "\<not> truthy (coinType h) \<or> \<not> truthy (validatorAddress h)"
  shows "StakingCard h f = NavigateTo ''/''
         \<and> (rendered p = StakingCard h f \<longrightarrow> step h p ClickSubmit = p)"
  using assms by (auto simp: StakingCard_def)

theorem missing_parameters_redirect_witness:
  "\<not> truthy (validatorAddress
        ((example_hooks False Active (Some working_signer))\<lparr>searchParams := Map.empty\<rparr>))
   \<and> StakingCard ((example_hooks False Active (Some working_signer))\<lparr>searchParams := Map.empty\<rparr>)
        (idle_form ''2'') = NavigateTo ''/''
   \<and> rendered
        (rendered_page
           ((example_hooks False Active (Some working_signer))\<lparr>searchParams := Map.empty\<rparr>)
           (idle_form ''2''))
       = StakingCard
           ((example_hooks False Active (Some working_signer))\<lparr>searchParams := Map.empty\<rparr>)
           (idle_form ''2'')
   \<and> step ((example_hooks False Active (Some working_signer))\<lparr>searchParams := Map.empty\<rparr>)
        (rendered_page
           ((example_hooks False Active (Some working_signer))\<lparr>searchParams := Map.empty\<rparr>)
           (idle_form ''2''))
        ClickSubmit
       = rendered_page
           ((example_hooks False Active (Some working_signer))\<lparr>searchParams := Map.empty\<rparr>)
           (idle_form ''2'')"
  using missing_parameters_redirect
    [where h = "(example_hooks False Active (Some working_signer))\<lparr>searchParams := Map.empty\<rparr>"
      and f = "idle_form ''2''"
      and p = "rendered_page
           ((example_hooks False Active (Some working_signer))\<lparr>searchParams := Map.empty\<rparr>)
           (idle_form ''2'')"]
  by (simp add: example_hooks_def validatorAddress_def truthy_def rendered_page_def)

subsection \<open>The minimum stake\<close>

text \<open>
  Claim C9. The minimum stake is computed inside the component as \<open>parseAmount('1', coinDecimals)\<close>.
  With a \<open>parseAmount\<close> that converts as the spec describes, it is one whole coin,
  \<open>10 ^ coinDecimals\<close>, this is the minimum the validation schema is built with, and at
  9 decimals it is 1000000000.
\<close>

theorem minimum_stake_one_coin:
  assumes "converts_as_specified (parseAmount h)"
  shows "minimumStake h = 10 ^ coinDecimals h
         \<and> validationSchema h =
             createValidationSchema h (coinBalance h) (coinSymbol h) (coinDecimals h) (unstake h)
               (10 ^ coinDecimals h)
         \<and> (coinDecimals h = 9 \<longrightarrow> minimumStake h = 1000000000)"
proof -
  from assms parseAmount_spec_one have "parseAmount h ''1'' (coinDecimals h) = 10 ^ coinDecimals h"
    by (simp add: converts_as_specified_def)
  then show ?thesis by (auto simp: minimumStake_def validationSchema_def)
qed

theorem minimum_stake_one_coin_witness:
  "converts_as_specified (parseAmount (example_hooks False Active (Some working_signer)))
   \<and> coinDecimals (example_hooks False Active (Some working_signer)) = 9
   \<and> minimumStake (example_hooks False Active (Some working_signer)) = 1000000000"
proof -
  have c: "converts_as_specified (parseAmount (example_hooks False Active (Some working_signer)))"
    by (simp add: example_hooks_def converts_as_specified_def)
  from minimum_stake_one_coin [OF c] c show ?thesis
    by (simp add: example_hooks_def)
qed

subsection \<open>The amount on the unstake path\<close>

text \<open>
  Claim C10. In unstake mode the run of the submit handler does not depend on the amount
  entered: for any two amount strings the handler issues the same effects. The request is
  built from the stake identifier alone: every builder call of the run is
  \<open>createUnstakeTransaction\<close> on the \<open>staked\<close> search parameter, and every broadcast
  carries the transaction that call returned. When the run gets past the guards, the
  builder returns and the signer resolves, the run is, for every amount, the unstake
  telemetry, that builder call, the signer call and the broadcast of that transaction,
  followed by what the handler does on the outcome of the broadcast.
\<close>

theorem unstake_ignores_amount:
  assumes "unstake h"
  shows "onHandleSubmit h amount1 = onHandleSubmit h amount2
         \<and> (\<forall>e\<in>set (onHandleSubmit h amount1). is_build e \<longrightarrow>
               (\<exists>sid. stakeSuiIdParams h = Some sid \<and> e = CreateUnstakeTransaction sid))
         \<and> (\<forall>transaction opts res.
               SignAndExecuteTransaction transaction opts res \<in> set (onHandleSubmit h amount1) \<longrightarrow>
               (\<exists>sid. stakeSuiIdParams h = Some sid
                  \<and> createUnstakeTransaction h sid = Inr transaction \<and> opts = showAll))
         \<and> (passes_guards h \<and> stakeSuiIdParams h = Some sid
              \<and> createUnstakeTransaction h sid = Inr tx
              \<and> signer h = Some (Inr initializedSigner) \<longrightarrow>
               onHandleSubmit h amount1 =
                 [TrackEvent ''Unstake'' [], SentryStartTransaction ''stake'',
                  CreateUnstakeTransaction sid, SignerCall,
                  SignAndExecuteTransaction tx showAll (initializedSigner tx showAll),
                  SentryFinish]
                 @ (case initializedSigner tx showAll of
                      Inl e \<Rightarrow> on_rejected h e
                    | Inr response \<Rightarrow> on_resolved h response))"
proof (intro conjI)
  show "onHandleSubmit h amount1 = onHandleSubmit h amount2"
    using assms by (simp add: onHandleSubmit_def Let_def split: option.splits)
  show "\<forall>e\<in>set (onHandleSubmit h amount1). is_build e \<longrightarrow>
          (\<exists>sid. stakeSuiIdParams h = Some sid \<and> e = CreateUnstakeTransaction sid)"
  proof (intro ballI impI)
    fix e assume "e \<in> set (onHandleSubmit h amount1)" and build: "is_build e"
    with assms obtain sid where sid: "stakeSuiIdParams h = Some sid"
      and e: "e \<in> set (fst (unStakeToken h sid))"
      by (auto elim: unstake_run_request)
    from unStakeToken_request [OF e] build sid
    show "\<exists>sid. stakeSuiIdParams h = Some sid \<and> e = CreateUnstakeTransaction sid" by simp
  qed
  show "\<forall>transaction opts res.
          SignAndExecuteTransaction transaction opts res \<in> set (onHandleSubmit h amount1) \<longrightarrow>
          (\<exists>sid. stakeSuiIdParams h = Some sid
             \<and> createUnstakeTransaction h sid = Inr transaction \<and> opts = showAll)"
  proof (intro allI impI)
    fix transaction opts res
    assume "SignAndExecuteTransaction transaction opts res \<in> set (onHandleSubmit h amount1)"
    with assms obtain sid where sid: "stakeSuiIdParams h = Some sid"
      and e: "SignAndExecuteTransaction transaction opts res \<in> set (fst (unStakeToken h sid))"
      by (auto elim: unstake_run_request)
    from unStakeToken_request [OF e] sid
    show "\<exists>sid. stakeSuiIdParams h = Some sid
            \<and> createUnstakeTransaction h sid = Inr transaction \<and> opts = showAll"
      by simp
  qed
  show "passes_guards h \<and> stakeSuiIdParams h = Some sid
          \<and> createUnstakeTransaction h sid = Inr tx
          \<and> signer h = Some (Inr initializedSigner) \<longrightarrow>
        onHandleSubmit h amount1 =
          [TrackEvent ''Unstake'' [], SentryStartTransaction ''stake'',
           CreateUnstakeTransaction sid, SignerCall,
           SignAndExecuteTransaction tx showAll (initializedSigner tx showAll),
           SentryFinish]
          @ (case initializedSigner tx showAll of
               Inl e \<Rightarrow> on_rejected h e
             | Inr response \<Rightarrow> on_resolved h response)"
    using assms
    by (auto simp: passes_guards_def truthy_def onHandleSubmit_def Let_def after_mutation_def
        unStakeToken_def signAndExecute_def split: option.splits sum.splits)
qed

theorem unstake_ignores_amount_witness:
  "unstake (example_hooks True Active (Some working_signer))
   \<and> passes_guards (example_hooks True Active (Some working_signer))
   \<and> stakeSuiIdParams (example_hooks True Active (Some working_signer)) = Some ''S1''
   \<and> createUnstakeTransaction (example_hooks True Active (Some working_signer)) ''S1''
       = Inr (WithdrawStake ''S1'')
   \<and> onHandleSubmit (example_hooks True Active (Some working_signer)) ''1''
       = onHandleSubmit (example_hooks True Active (Some working_signer)) ''not a number''
   \<and> onHandleSubmit (example_hooks True Active (Some working_signer)) ''not a number''
       = [TrackEvent ''Unstake'' [], SentryStartTransaction ''stake'',
          CreateUnstakeTransaction ''S1'', SignerCall,
          SignAndExecuteTransaction (WithdrawStake ''S1'') showAll (Inr ''D1''),
          SentryFinish,
          InvalidateQueries [''system'', ''state''], InvalidateQueries [''validator''],
          ResetForm,
          Navigate ''/receipt'' [(''txdigest'', ''D1''), (''from'', ''stake'')]]"
proof -
  have u: "unstake (example_hooks True Active (Some working_signer))"
    by (simp add: example_hooks_def unstake_def)
  from unstake_ignores_amount [OF u, where ?amount1.0 = "''not a number''"
      and ?amount2.0 = "''1''" and sid = "''S1''" and tx = "WithdrawStake ''S1''"
      and initializedSigner = "\<lambda>t opts. Inr ''D1''"] u
  show ?thesis
    by (simp add: example_defs render_defs handler_defs form_defs)
qed

end
